theory Spec2Isabelle
  imports Main "HOL-Library.List_Lexorder"
begin

section \<open>Strings and the library functions the program calls\<close>

text \<open>
  A Python \<open>str\<close> is a sequence of Unicode code points and \<open>len\<close> counts code points,
  so a string is a list of code points. ASCII literals of the source are written through
  \<open>ascii\<close>; the Cyrillic literals are given by their code points.
\<close>

type_synonym ustr = "nat list"

definition ascii :: "string \<Rightarrow> ustr" where
  "ascii s = map of_char s"

text \<open>
  The functions of the Python library whose value depends on the Unicode case tables, on
  URL syntax or on a third-party parser are parameters of the model: \<open>str.lower\<close>, the character
  equivalence that \<open>re.I\<close> uses, \<open>urljoin\<close>, and the view of a parsed page that
  \<open>BeautifulSoup\<close> gives (\<open>find_all('a', href=True)\<close> as the list of \<open>href\<close> and
  \<open>get_text(strip=True)\<close> of each anchor, in document order).
\<close>

record pylib =
  str_lower :: "ustr \<Rightarrow> ustr"
  re_ieq :: "nat \<Rightarrow> nat \<Rightarrow> bool"
  urljoin :: "ustr \<Rightarrow> ustr \<Rightarrow> ustr"
  soup_anchors :: "ustr \<Rightarrow> (ustr \<times> ustr) list"

text \<open>\<open>p in t\<close> on strings: \<open>p\<close> occurs in \<open>t\<close> as a contiguous run.\<close>

fun starts_with :: "('a \<Rightarrow> 'a \<Rightarrow> bool) \<Rightarrow> 'a list \<Rightarrow> 'a list \<Rightarrow> bool" where
  "starts_with eq [] t = True"
| "starts_with eq (p # ps) [] = False"
| "starts_with eq (p # ps) (c # cs) = (eq p c \<and> starts_with eq ps cs)"

fun occurs_in :: "('a \<Rightarrow> 'a \<Rightarrow> bool) \<Rightarrow> 'a list \<Rightarrow> 'a list \<Rightarrow> bool" where
  "occurs_in eq p [] = (p = [])"
| "occurs_in eq p (c # cs) = (starts_with eq p (c # cs) \<or> occurs_in eq p cs)"

definition str_in :: "ustr \<Rightarrow> ustr \<Rightarrow> bool" where
  "str_in p t = occurs_in (=) p t"

text \<open>
  \<open>re.search(r'p1|p2|..', text, re.I)\<close> for literal alternatives, as a truth value: some
  alternative occurs in the text, characters compared by the engine's case-insensitive
  equivalence.
\<close>

definition re_search_i :: "pylib \<Rightarrow> ustr list \<Rightarrow> ustr \<Rightarrow> bool" where
  "re_search_i L pats text = list_ex (\<lambda>p. occurs_in (re_ieq L) p text) pats"

section \<open>Static tables\<close>

definition agrarian :: ustr where "agrarian = ascii ''agrarian''"
definition social :: ustr where "social = ascii ''social''"
definition corporate :: ustr where "corporate = ascii ''corporate''"
definition other :: ustr where "other = ascii ''other''"

text \<open>\<open>SECTOR_KEYWORDS\<close>, a dictionary in declaration order (an association list).\<close>

definition agrarian_keywords :: "ustr list" where
  "agrarian_keywords =
    [[1079, 1077, 1084, 1083],
     [1089, 1110, 1083, 1100, 1089, 1100, 1082, 1086, 1075, 1086, 1089, 1087, 1086, 1076, 1072, 1088],
     [1092, 1077, 1088, 1084, 1077, 1088],
     [1087, 1110, 1076, 1090, 1088, 1080, 1084, 1082],
     [1089, 1091, 1073, 1089, 1080, 1076],
     [1077, 1082, 1089, 1087, 1086, 1088, 1090],
     [1093, 1083, 1110, 1073],
     [1079, 1077, 1088, 1085, 1086],
     [1092, 1110, 1090, 1086, 1089, 1072, 1085, 1110, 1090],
     [1092, 1110, 1090, 1086, 1089, 1072, 1085, 1080, 1090, 1072, 1088],
     [1082, 1074, 1086, 1090],
     [1072, 1075, 1088, 1072, 1088],
     [1087, 1072, 1111]]"

definition social_keywords :: "ustr list" where
  "social_keywords =
    [[1090, 1088, 1091, 1076],
     [1079, 1072, 1088, 1087, 1083, 1072, 1090],
     [1089, 1090, 1088, 1072, 1093, 1086, 1074],
     [1087, 1077, 1085, 1089],
     [1087, 1077, 1085, 1089, 1110, 1081],
     [1087, 1088, 1072, 1094, 1110],
     [1086, 1093, 1086, 1088, 1086, 1085],
     [1089, 1086, 1094, 1110, 1072, 1083],
     [1074, 1085, 1077, 1089, 1082],
     [1096, 1090, 1088, 1072, 1092],
     [1074, 1110, 1076, 1087, 1091, 1089, 1090, 1082]]"

definition corporate_keywords :: "ustr list" where
  "corporate_keywords =
    [[1087, 1086, 1076, 1072, 1090],
     [1074, 1072, 1083, 1102, 1090],
     [1082, 1086, 1088, 1087, 1086, 1088, 1072, 1090, 1080, 1074],
     [1091, 1087, 1088, 1072, 1074, 1083],
     [109, 38, 97],
     [1079, 1083, 1080, 1090],
     [1087, 1088, 1080, 1076, 1073],
     [1073, 1086, 1088, 1075],
     [1074, 1110, 1081],
     [1083, 1110, 1084, 1110, 1090],
     [1082, 1086, 1085, 1094, 1077, 1088, 1085]]"

definition SECTOR_KEYWORDS :: "(ustr \<times> ustr list) list" where
  "SECTOR_KEYWORDS =
    [(agrarian, agrarian_keywords), (social, social_keywords), (corporate, corporate_keywords)]"

text \<open>\<open>SECTOR_LABELS\<close>: Agrarnyi, Sotsialnyi, Korporatyvnyi, Inshyi.\<close>

definition label_agrarian :: ustr where
  "label_agrarian = [1040, 1075, 1088, 1072, 1088, 1085, 1080, 1081]"
definition label_social :: ustr where
  "label_social = [1057, 1086, 1094, 1110, 1072, 1083, 1100, 1085, 1080, 1081]"
definition label_corporate :: ustr where
  "label_corporate = [1050, 1086, 1088, 1087, 1086, 1088, 1072, 1090, 1080, 1074, 1085, 1080, 1081]"
definition label_other :: ustr where
  "label_other = [1030, 1085, 1096, 1080, 1081]"

definition SECTOR_LABELS :: "(ustr \<times> ustr) list" where
  "SECTOR_LABELS =
    [(agrarian, label_agrarian), (social, label_social), (corporate, label_corporate),
     (other, label_other)]"

text \<open>\<open>d.get(k, default)\<close> on a dictionary.\<close>

definition dict_get :: "('k \<times> 'v) list \<Rightarrow> 'k \<Rightarrow> 'v \<Rightarrow> 'v" where
  "dict_get d k dflt = (case map_of d k of None \<Rightarrow> dflt | Some v \<Rightarrow> v)"

section \<open>Sector classifier and risk score\<close>

text \<open>
  \<open>analyze_text_for_sectors\<close>: the inner loop appends to \<open>found[sector]\<close> every keyword
  whose lower-cased form occurs in the lower-cased text. The returned map holds
  \<open>list(set(found[s]))\<close>; the iteration order of a Python set is unspecified, the model
  lists each keyword once, and nothing downstream reads the order.
\<close>

definition found_keywords :: "pylib \<Rightarrow> ustr \<Rightarrow> ustr list \<Rightarrow> ustr list" where
  "found_keywords L low kws = filter (\<lambda>kw. str_in (str_lower L kw) low) kws"

definition analyze_text_for_sectors ::
    "pylib \<Rightarrow> ustr \<Rightarrow> ustr list \<times> (ustr \<times> ustr list) list" where
  "analyze_text_for_sectors L text =
    (let low = str_lower L text;
         found = map (\<lambda>(sector, kws). (sector, found_keywords L low kws)) SECTOR_KEYWORDS;
         matched = map fst (filter (\<lambda>(s, lst). lst \<noteq> []) found)
     in (matched, map (\<lambda>(s, lst). (s, remdups lst)) found))"

text \<open>The penalty stems of the bonus: shtraf, shtrafy, sankts.\<close>

definition penalty_stems :: "ustr list" where
  "penalty_stems =
    [[1096, 1090, 1088, 1072, 1092], [1096, 1090, 1088, 1072, 1092, 1080],
     [1089, 1072, 1085, 1082, 1094]]"

text \<open>
  \<open>compute_risk_score\<close>, statement by statement: the score after the sector term, the loop
  over \<open>matched\<close> adding \<open>len(keywords_map.get(s, []))\<close>, the bonus, the cap.
\<close>

fun add_keyword_counts :: "int \<Rightarrow> 'k list \<Rightarrow> ('k \<times> 'v list) list \<Rightarrow> int" where
  "add_keyword_counts score [] keywords_map = score"
| "add_keyword_counts score (s # rest) keywords_map =
     add_keyword_counts (score + int (length (dict_get keywords_map s []))) rest keywords_map"

definition compute_risk_score ::
    "pylib \<Rightarrow> 'k list \<Rightarrow> ('k \<times> 'v list) list \<Rightarrow> ustr \<Rightarrow> int" where
  "compute_risk_score L matched keywords_map text =
    (let score = 0;
         score = score + 2 * int (length matched);
         score = add_keyword_counts score matched keywords_map;
         score = (if re_search_i L penalty_stems text then score + 3 else score);
         score = (if score > 10 then 10 else score)
     in score)"

text \<open>
  The score as the specification words it, for comparison: the keyword term counts every
  keyword of the map, across all its sectors.
\<close>

definition risk_score_as_claimed :: "pylib \<Rightarrow> 'k list \<Rightarrow> ('k \<times> 'v list) list \<Rightarrow> ustr \<Rightarrow> int" where
  "risk_score_as_claimed L matched keywords_map text =
    min 10 (0 + 2 * int (length matched)
              + int (length (concat (map snd keywords_map)))
              + (if re_search_i L penalty_stems text then 3 else 0))"

section \<open>A sample library instance\<close>

text \<open>
  A small instance of the library, used to run the model on concrete inputs: lower-casing
  of Basic Latin and of the Cyrillic capitals U+0400 to U+042F, character by character.
\<close>

definition sample_lower_cp :: "nat \<Rightarrow> nat" where
  "sample_lower_cp c =
    (if 65 \<le> c \<and> c \<le> 90 then c + 32
     else if 1040 \<le> c \<and> c \<le> 1071 then c + 32
     else if 1024 \<le> c \<and> c \<le> 1039 then c + 80
     else c)"

definition sample_lib :: pylib where
  "sample_lib =
    \<lparr>str_lower = map sample_lower_cp,
     re_ieq = (\<lambda>a b. sample_lower_cp a = sample_lower_cp b),
     urljoin = (\<lambda>base href. if starts_with (=) (ascii ''http'') href then href else base @ href),
     soup_anchors = (\<lambda>html. [])\<rparr>"

section \<open>The scenario text\<close>

text \<open>
  The body text of the scenario (Tsei zakon stosuietsia zemli ta subsydii. Tse druhyi
  riadok.), its lower-cased form, and the two keywords it names (zeml, subsyd).
\<close>

definition scenario_text :: ustr where
  "scenario_text =
    [1062, 1077, 1081, 32, 1079, 1072, 1082, 1086, 1085, 32, 1089, 1090, 1086, 1089, 1091,
     1108, 1090, 1100, 1089, 1103, 32, 1079, 1077, 1084, 1083, 1110, 32, 1090, 1072, 32,
     1089, 1091, 1073, 1089, 1080, 1076, 1110, 1081, 46, 32, 1062, 1077, 32, 1076, 1088,
     1091, 1075, 1080, 1081, 32, 1088, 1103, 1076, 1086, 1082, 46]"

definition scenario_text_lower :: ustr where
  "scenario_text_lower =
    [1094, 1077, 1081, 32, 1079, 1072, 1082, 1086, 1085, 32, 1089, 1090, 1086, 1089, 1091,
     1108, 1090, 1100, 1089, 1103, 32, 1079, 1077, 1084, 1083, 1110, 32, 1090, 1072, 32,
     1089, 1091, 1073, 1089, 1080, 1076, 1110, 1081, 46, 32, 1094, 1077, 32, 1076, 1088,
     1091, 1075, 1080, 1081, 32, 1088, 1103, 1076, 1086, 1082, 46]"

definition kw_zeml :: ustr where "kw_zeml = [1079, 1077, 1084, 1083]"
definition kw_subsyd :: ustr where "kw_subsyd = [1089, 1091, 1073, 1089, 1080, 1076]"

section \<open>Summarizer\<close>

text \<open>
  Whitespace as \<open>str.isspace\<close>, \<open>str.strip\<close> and the \<open>\s\<close> of \<open>re\<close> on \<open>str\<close> patterns
  decide it: the ASCII controls U+0009 to U+000D and U+001C to U+001F, the space, and
  U+0085, U+00A0, U+1680, U+2000 to U+200A, U+2028, U+2029, U+202F, U+205F, U+3000.
\<close>

definition py_isspace :: "nat \<Rightarrow> bool" where
  "py_isspace c =
    ((9 \<le> c \<and> c \<le> 13) \<or> (28 \<le> c \<and> c \<le> 32) \<or> c = 133 \<or> c = 160 \<or> c = 5760
     \<or> (8192 \<le> c \<and> c \<le> 8202) \<or> c = 8232 \<or> c = 8233 \<or> c = 8239 \<or> c = 8287
     \<or> c = 12288)"

text \<open>The class \<open>[.!?]\<close> of the lookbehind.\<close>

definition sentence_punct :: "nat \<Rightarrow> bool" where
  "sentence_punct c = (c = 46 \<or> c = 33 \<or> c = 63)"

text \<open>
  \<open>re.split(r'(?<=[.!?])\s+', text)\<close>: a scan from the left. \<open>cur\<close> is the piece read so
  far. A match starts at a whitespace character that follows one of \<open>.!?\<close> and takes the
  whole run of whitespace; the piece ends before the match and the next one begins after
  it. The result always has at least one piece.
\<close>

function re_split_sentences :: "ustr \<Rightarrow> ustr \<Rightarrow> ustr list" where
  "re_split_sentences cur [] = [cur]"
| "re_split_sentences cur [c] = [cur @ [c]]"
| "re_split_sentences cur (c # d # rest) =
     (if sentence_punct c \<and> py_isspace d
      then (cur @ [c]) # re_split_sentences [] (dropWhile py_isspace rest)
      else re_split_sentences (cur @ [c]) (d # rest))"
  by pat_completeness auto
termination
  by (relation "measure (\<lambda>(cur, text). length text)")
     (auto simp: less_Suc_eq_le intro: le_trans [OF length_dropWhile_le])

text \<open>\<open>sep.join(xs)\<close>, \<open>s.strip()\<close>, \<open>s[:k]\<close> and \<open>s.rsplit(' ', 1)[0]\<close>.\<close>

fun str_join :: "ustr \<Rightarrow> ustr list \<Rightarrow> ustr" where
  "str_join sep [] = []"
| "str_join sep [x] = x"
| "str_join sep (x # y # ys) = x @ sep @ str_join sep (y # ys)"

definition strip :: "ustr \<Rightarrow> ustr" where
  "strip s = rev (dropWhile py_isspace (rev (dropWhile py_isspace s)))"

definition slice_to :: "'a list \<Rightarrow> int \<Rightarrow> 'a list" where
  "slice_to s k = (if 0 \<le> k then take (nat k) s else take (length s - nat (- k)) s)"

definition rsplit_space_head :: "ustr \<Rightarrow> ustr" where
  "rsplit_space_head s =
    (if 32 \<in> set s then rev (tl (dropWhile (\<lambda>c. c \<noteq> 32) (rev s))) else s)"

text \<open>
  \<open>summarize_text\<close>. \<open>selected_text\<close> is the value of \<open>s\<close> after \<open>s = s.strip()\<close>; the
  branch for an empty \<open>sentences\<close> is kept as the source has it.
\<close>

definition selected_text :: "ustr \<Rightarrow> ustr" where
  "selected_text text =
    (let sentences = re_split_sentences [] text;
         s = (if length sentences \<ge> 2 then str_join (ascii '' '') (take 2 sentences)
              else (case sentences of [] \<Rightarrow> [] | s0 # _ \<Rightarrow> s0))
     in strip s)"

definition summarize_text :: "ustr \<Rightarrow> int \<Rightarrow> ustr" where
  "summarize_text text max_chars =
    (let s = selected_text text
     in if int (length s) > max_chars
        then rsplit_space_head (slice_to s max_chars) @ ascii ''...''
        else s)"

section \<open>Row builder\<close>

record parsed_bill =
  pb_url :: ustr
  pb_title :: ustr
  pb_published_date :: ustr
  pb_status :: ustr
  pb_full_text :: ustr

record output_row =
  bill_url :: ustr
  title :: ustr
  published_date :: ustr
  status :: ustr
  matched_sectors :: ustr
  sector_main :: ustr
  keywords_found :: ustr
  risk_score :: int
  summary :: ustr

text \<open>
  \<open>build_row\<close>. \<open>sorted({kw for lst in keywords_map.values() for kw in lst})\<close> is the
  sorted list of the distinct keywords; Python compares strings code point by code point,
  which is the lexicographic order on lists.
\<close>

definition build_row :: "pylib \<Rightarrow> parsed_bill \<Rightarrow> output_row" where
  "build_row L parsed =
    (let (matched, keywords_map) = analyze_text_for_sectors L (pb_full_text parsed);
         risk = compute_risk_score L matched keywords_map (pb_full_text parsed);
         summary = summarize_text (pb_full_text parsed) 300;
         sector_main_eng = (case matched of [] \<Rightarrow> other | m # _ \<Rightarrow> m);
         sector_main = dict_get SECTOR_LABELS sector_main_eng label_other
     in \<lparr>bill_url = pb_url parsed,
         title = pb_title parsed,
         published_date = pb_published_date parsed,
         status = pb_status parsed,
         matched_sectors = str_join (ascii '';'') (map (\<lambda>s. dict_get SECTOR_LABELS s s) matched),
         sector_main = sector_main,
         keywords_found = str_join (ascii '';'') (sort (remdups (concat (map snd keywords_map)))),
         risk_score = risk,
         summary = summary\<rparr>)"

section \<open>Summarizer: the description to compare with\<close>

text \<open>
  The summary as the specification words it. A sentence boundary is a position whose
  character is whitespace and follows one of \<open>.!?\<close>; the first sentence is the text
  before the first boundary, the second sentence is found the same way in what follows
  the whitespace. Two sentences are joined by a space; a text without a boundary is its
  own single sentence. A selection longer than the budget is cut to the budget, then
  back to before its last space, and the ellipsis is appended.
\<close>

definition boundary_at :: "ustr \<Rightarrow> nat \<Rightarrow> bool" where
  "boundary_at text k = (sentence_punct (text ! (k - 1)) \<and> py_isspace (text ! k))"

definition first_boundary :: "ustr \<Rightarrow> nat option" where
  "first_boundary text = find (boundary_at text) [1..<length text]"

definition first_two_sentences :: "ustr \<Rightarrow> ustr" where
  "first_two_sentences text =
    (case first_boundary text of
       None \<Rightarrow> text
     | Some k \<Rightarrow>
         (let rest = dropWhile py_isspace (drop k text);
              second = (case first_boundary rest of None \<Rightarrow> rest | Some j \<Rightarrow> take j rest)
          in take k text @ ascii '' '' @ second))"

definition truncate_to_budget :: "ustr \<Rightarrow> nat \<Rightarrow> ustr" where
  "truncate_to_budget s n =
    (if length s > n then rsplit_space_head (take n s) @ ascii ''...'' else s)"

text \<open>As claimed: the selection goes to the budget check as it is.\<close>

definition summary_as_claimed :: "ustr \<Rightarrow> nat \<Rightarrow> ustr" where
  "summary_as_claimed text n = truncate_to_budget (first_two_sentences text) n"

text \<open>As amended: leading and trailing whitespace is removed from the selection first.\<close>

definition summary_amended :: "ustr \<Rightarrow> nat \<Rightarrow> ustr" where
  "summary_amended text n = truncate_to_budget (strip (first_two_sentences text)) n"

section \<open>Link extractor\<close>

definition BASE_PORTAL :: ustr where
  "BASE_PORTAL = ascii ''https://itd.rada.gov.ua''"

definition PERIOD_LIST_URL :: ustr where
  "PERIOD_LIST_URL = ascii ''https://itd.rada.gov.ua/billInfo/Bills/period''"

definition OUTPUT_CSV :: ustr where
  "OUTPUT_CSV = ascii ''bills_output.csv''"

definition bill_patterns :: "ustr list" where
  "bill_patterns = [ascii ''Bills/Details'', ascii ''BillInfo/Details'', ascii ''billInfo/Bill'']"

definition is_bill_href :: "pylib \<Rightarrow> ustr \<Rightarrow> bool" where
  "is_bill_href L href =
    (re_search_i L bill_patterns href \<or> str_in (ascii ''bill'') (str_lower L href))"

text \<open>
  The first loop of \<open>extract_bill_links\<close>, over the anchors (\<open>href\<close>, text) of the page:
  the pairs (\<open>text or 'No title'\<close>, resolved URL) of the anchors that are kept.
\<close>

definition collect_links :: "pylib \<Rightarrow> (ustr \<times> ustr) list \<Rightarrow> (ustr \<times> ustr) list" where
  "collect_links L anchors =
    map (\<lambda>(href, text). (if text = [] then ascii ''No title'' else text,
                          urljoin L BASE_PORTAL href))
        (filter (\<lambda>(href, text). is_bill_href L href) anchors)"

text \<open>
  The second loop: \<open>seen\<close> and \<open>uniq\<close> are the loop's variables; the test of the limit
  comes after the append, as in the source, and ends the loop.
\<close>

fun unique_links ::
    "ustr set \<Rightarrow> (ustr \<times> ustr) list \<Rightarrow> (ustr \<times> ustr) list \<Rightarrow> int \<Rightarrow> (ustr \<times> ustr) list" where
  "unique_links seen uniq [] limit = uniq"
| "unique_links seen uniq ((t, u) # links) limit =
     (let (seen', uniq') = (if u \<notin> seen then (insert u seen, uniq @ [(t, u)]) else (seen, uniq))
      in if int (length uniq') \<ge> limit then uniq'
         else unique_links seen' uniq' links limit)"

definition extract_bill_links :: "pylib \<Rightarrow> ustr \<Rightarrow> int \<Rightarrow> (ustr \<times> ustr) list" where
  "extract_bill_links L html limit =
    unique_links {} [] (collect_links L (soup_anchors L html)) limit"

text \<open>
  For comparison: the entries in first-seen order of their URLs, each URL once, with the
  text of its first occurrence.
\<close>

fun first_seen :: "(ustr \<times> ustr) list \<Rightarrow> (ustr \<times> ustr) list" where
  "first_seen [] = []"
| "first_seen ((t, u) # links) = (t, u) # first_seen (filter (\<lambda>(t', u'). u' \<noteq> u) links)"

section \<open>CSV writer\<close>

text \<open>\<open>str(n)\<close> for an integer: decimal digits, with a minus sign when negative.\<close>

fun str_nat :: "nat \<Rightarrow> ustr" where
  "str_nat n = (if n < 10 then [48 + n] else str_nat (n div 10) @ [48 + n mod 10])"

definition str_int :: "int \<Rightarrow> ustr" where
  "str_int i = (if i < 0 then 45 # str_nat (nat (- i)) else str_nat (nat i))"

text \<open>
  \<open>csv.writer.writerow\<close> in the default dialect (\<open>excel\<close>: delimiter comma, quote
  character \<open>"\<close>, doubled quotes, line terminator CR LF, minimal quoting). A field is
  quoted when it contains the delimiter, the quote character, CR or LF; a row whose only
  field is empty is written as a pair of quotes.
\<close>

definition csv_special :: "nat \<Rightarrow> bool" where
  "csv_special c = (c = 44 \<or> c = 34 \<or> c = 13 \<or> c = 10)"

definition csv_quoted :: "ustr \<Rightarrow> ustr" where
  "csv_quoted f = [34] @ concat (map (\<lambda>c. if c = 34 then [34, 34] else [c]) f) @ [34]"

definition csv_field :: "ustr \<Rightarrow> ustr" where
  "csv_field f = (if list_ex csv_special f then csv_quoted f else f)"

definition csv_writerow :: "ustr list \<Rightarrow> ustr" where
  "csv_writerow vals =
    (if vals = [[]] then [34, 34] else str_join [44] (map csv_field vals)) @ [13, 10]"

definition fieldnames :: "ustr list" where
  "fieldnames =
    [ascii ''bill_url'', ascii ''title'', ascii ''published_date'', ascii ''status'',
     ascii ''matched_sectors'', ascii ''sector_main'', ascii ''keywords_found'',
     ascii ''risk_score'', ascii ''summary'']"

text \<open>
  \<open>DictWriter.writerow(r)\<close> passes the values of \<open>r\<close> in the order of \<open>fieldnames\<close>; the
  writer renders the integer \<open>risk_score\<close> with \<open>str\<close>.
\<close>

definition row_values :: "output_row \<Rightarrow> ustr list" where
  "row_values r =
    [bill_url r, title r, published_date r, status r, matched_sectors r, sector_main r,
     keywords_found r, str_int (risk_score r), summary r]"

section \<open>CSV reader\<close>

text \<open>
  The lines of a text file opened with \<open>newline=''\<close>, as iteration over the file gives
  them: a line ends after LF, after CR LF, or after a CR that no LF follows; the line
  terminators are kept; a last line without terminator is a line.
\<close>

fun split_lines :: "ustr \<Rightarrow> ustr list" where
  "split_lines [] = []"
| "split_lines (c # cs) =
     (if c = 10 then [10] # split_lines cs
      else if c = 13 then
        (case cs of
           [] \<Rightarrow> [[13]]
         | d # ds \<Rightarrow> if d = 10 then [13, 10] # split_lines ds else [13] # split_lines cs)
      else
        (case split_lines cs of
           [] \<Rightarrow> [[c]]
         | l # ls \<Rightarrow> (c # l) # ls))"

text \<open>
  \<open>csv.reader\<close> in the default dialect, not strict: the state machine that the reader
  runs on every character of a line and then on the end-of-line mark. \<open>field\<close> is the
  field being read, \<open>saved\<close> the fields of the record read so far. A field holds at
  most \<open>csv.field_size_limit()\<close> characters, 131072 by default: adding a character to a
  field of that length is an error.
\<close>

datatype reader_state =
  START_RECORD | START_FIELD | IN_FIELD | IN_QUOTED_FIELD | QUOTE_IN_QUOTED_FIELD | EAT_CRNL

datatype sym = Ch nat | EOL

record reader =
  state :: reader_state
  field :: ustr
  saved :: "ustr list"

definition new_reader :: reader where
  "new_reader = \<lparr>state = START_RECORD, field = [], saved = []\<rparr>"

definition save_field :: "reader \<Rightarrow> reader_state \<Rightarrow> reader" where
  "save_field r st = \<lparr>state = st, field = [], saved = saved r @ [field r]\<rparr>"

definition field_limit :: nat where
  "field_limit = 131072"

definition add_char :: "reader \<Rightarrow> nat \<Rightarrow> reader_state \<Rightarrow> reader option" where
  "add_char r c st =
    (if length (field r) \<ge> field_limit then None
     else Some \<lparr>state = st, field = field r @ [c], saved = saved r\<rparr>)"

definition start_field :: "reader \<Rightarrow> sym \<Rightarrow> reader option" where
  "start_field r s =
    (case s of
       EOL \<Rightarrow> Some (save_field r START_RECORD)
     | Ch c \<Rightarrow>
         if c = 10 \<or> c = 13 then Some (save_field r EAT_CRNL)
         else if c = 34 then Some (r\<lparr>state := IN_QUOTED_FIELD\<rparr>)
         else if c = 44 then Some (save_field r START_FIELD)
         else add_char r c IN_FIELD)"

text \<open>
  One step; \<open>None\<close> is the error the reader raises (a field over the limit, or a
  character after the line break that ended a record).
\<close>

definition process_char :: "reader \<Rightarrow> sym \<Rightarrow> reader option" where
  "process_char r s =
    (case state r of
       START_RECORD \<Rightarrow>
         (case s of
            EOL \<Rightarrow> Some r
          | Ch c \<Rightarrow> if c = 10 \<or> c = 13 then Some (r\<lparr>state := EAT_CRNL\<rparr>)
                    else start_field r s)
     | START_FIELD \<Rightarrow> start_field r s
     | IN_FIELD \<Rightarrow>
         (case s of
            EOL \<Rightarrow> Some (save_field r START_RECORD)
          | Ch c \<Rightarrow>
              if c = 10 \<or> c = 13 then Some (save_field r EAT_CRNL)
              else if c = 44 then Some (save_field r START_FIELD)
              else add_char r c IN_FIELD)
     | IN_QUOTED_FIELD \<Rightarrow>
         (case s of
            EOL \<Rightarrow> Some r
          | Ch c \<Rightarrow>
              if c = 34 then Some (r\<lparr>state := QUOTE_IN_QUOTED_FIELD\<rparr>)
              else add_char r c IN_QUOTED_FIELD)
     | QUOTE_IN_QUOTED_FIELD \<Rightarrow>
         (case s of
            EOL \<Rightarrow> Some (save_field r START_RECORD)
          | Ch c \<Rightarrow>
              if c = 34 then add_char r c IN_QUOTED_FIELD
              else if c = 44 then Some (save_field r START_FIELD)
              else if c = 10 \<or> c = 13 then Some (save_field r EAT_CRNL)
              else add_char r c IN_FIELD)
     | EAT_CRNL \<Rightarrow>
         (case s of
            EOL \<Rightarrow> Some (r\<lparr>state := START_RECORD\<rparr>)
          | Ch c \<Rightarrow> if c = 10 \<or> c = 13 then Some r else None))"

text \<open>
  The records of a sequence of characters and end-of-line marks. A record is complete
  when the end-of-line mark leaves the reader at the start of a record; the reader then
  starts afresh. When the input ends inside a quoted field, what was read is the last
  record.
\<close>

fun read_syms :: "reader \<Rightarrow> sym list \<Rightarrow> ustr list list option" where
  "read_syms r [] =
     Some (if field r \<noteq> [] \<or> state r = IN_QUOTED_FIELD then [saved r @ [field r]] else [])"
| "read_syms r (s # ss) =
     (case process_char r s of
        None \<Rightarrow> None
      | Some r' \<Rightarrow>
          if s = EOL \<and> state r' = START_RECORD
          then map_option ((#) (saved r')) (read_syms new_reader ss)
          else read_syms r' ss)"

definition line_syms :: "ustr \<Rightarrow> sym list" where
  "line_syms text = concat (map (\<lambda>l. map Ch l @ [EOL]) (split_lines text))"

definition csv_reader :: "ustr \<Rightarrow> ustr list list option" where
  "csv_reader text = read_syms new_reader (line_syms text)"

text \<open>The state the reader is in after a field that the writer wrote.\<close>

definition after_field :: "reader_state \<Rightarrow> ustr \<Rightarrow> reader_state" where
  "after_field st f =
    (if f = [] then st
     else if list_ex csv_special f then QUOTE_IN_QUOTED_FIELD
     else IN_FIELD)"

section \<open>The run: network, console and files\<close>

text \<open>
  \<open>requests.get\<close> followed by \<open>raise_for_status\<close> gives the body text or raises. What is
  printed is kept as a value per message of the source. The world records the requests
  made, the console, the files written (name to content, as text), the pauses, and the
  exception that ended the run, if one was raised and not caught.
\<close>

datatype py_error = UnicodeEncodeError

datatype response = Body ustr | Failed

datatype message =
    ListFetchError
  | NoPeriodHtml
  | FoundLinks nat
  | Processing nat nat ustr ustr
  | BillFetchError ustr
  | SectorLine ustr ustr
  | Saved nat ustr
  | NothingSaved

record world =
  requests :: "ustr list"
  console :: "message list"
  files :: "ustr \<rightharpoonup> ustr"
  sleeps :: nat
  raised :: "py_error option"

text \<open>
  The environment of a run: the library, the answer of the network to the \<open>n\<close>-th request
  of the run (to the URL asked), and \<open>parse_bill\<close>, which the run applies to a page it
  fetched.
\<close>

record env =
  lib :: pylib
  http_get :: "nat \<Rightarrow> ustr \<Rightarrow> response"
  parse_bill :: "ustr \<Rightarrow> ustr \<Rightarrow> parsed_bill"

definition print :: "message \<Rightarrow> world \<Rightarrow> world" where
  "print m w = w\<lparr>console := console w @ [m]\<rparr>"

definition request :: "env \<Rightarrow> ustr \<Rightarrow> world \<Rightarrow> response \<times> world" where
  "request E url w = (http_get E (length (requests w)) url, w\<lparr>requests := requests w @ [url]\<rparr>)"

definition fetch_period_page :: "env \<Rightarrow> world \<Rightarrow> ustr option \<times> world" where
  "fetch_period_page E w =
    (case request E PERIOD_LIST_URL w of
       (Body text, w') \<Rightarrow> (Some text, w')
     | (Failed, w') \<Rightarrow> (None, print ListFetchError w'))"

definition fetch_bill_page :: "env \<Rightarrow> ustr \<Rightarrow> world \<Rightarrow> ustr option \<times> world" where
  "fetch_bill_page E url w =
    (case request E url w of
       (Body text, w') \<Rightarrow> (Some text, w')
     | (Failed, w') \<Rightarrow> (None, print (BillFetchError url) w'))"

text \<open>
  The file is opened with \<open>encoding='utf-8'\<close>: a text can be written when it holds no
  surrogate (U+D800 to U+DFFF). The writer passes every row to the file as one text; a
  row that cannot be encoded raises \<open>UnicodeEncodeError\<close> and nothing of it is written.
  \<open>write_lines\<close> is the content of the file after the rows written so far, and the
  error that stopped the writing, if any.
\<close>

definition utf8_encodable :: "ustr \<Rightarrow> bool" where
  "utf8_encodable s = list_all (\<lambda>c. c < 55296 \<or> 57343 < c) s"

fun write_lines :: "ustr \<Rightarrow> ustr list \<Rightarrow> ustr \<times> py_error option" where
  "write_lines content [] = (content, None)"
| "write_lines content (l # ls) =
     (if utf8_encodable l then write_lines (content @ l) ls
      else (content, Some UnicodeEncodeError))"

text \<open>
  \<open>save_rows_to_csv\<close>: the header, then the rows in order. When a write raises, the
  \<open>with\<close> block closes the file with what was written, the line that reports the saving
  is not printed, and the exception leaves the function.
\<close>

definition save_rows_to_csv :: "output_row list \<Rightarrow> ustr \<Rightarrow> world \<Rightarrow> world" where
  "save_rows_to_csv rows output w =
    (case write_lines [] (csv_writerow fieldnames # map (\<lambda>r. csv_writerow (row_values r)) rows) of
       (content, None) \<Rightarrow>
         print (Saved (length rows) output) (w\<lparr>files := (files w)(output \<mapsto> content)\<rparr>)
     | (content, Some e) \<Rightarrow>
         w\<lparr>files := (files w)(output \<mapsto> content), raised := Some e\<rparr>)"

text \<open>
  The loop of \<open>main\<close> over the links, \<open>i\<close> counting from 1, \<open>n\<close> the number of links;
  \<open>not bill_html\<close> holds for a failed fetch and for an empty body.
\<close>

fun process_links ::
    "env \<Rightarrow> nat \<Rightarrow> nat \<Rightarrow> (ustr \<times> ustr) list \<Rightarrow> output_row list \<Rightarrow> world
      \<Rightarrow> output_row list \<times> world" where
  "process_links E i n [] rows w = (rows, w)"
| "process_links E i n ((t, url) # links) rows w =
     (case fetch_bill_page E url (print (Processing i n t url) w) of
        (None, w') \<Rightarrow> process_links E (i + 1) n links rows w'
      | (Some bill_html, w') \<Rightarrow>
          if bill_html = [] then process_links E (i + 1) n links rows w'
          else
            (let parsed = parse_bill E bill_html url;
                 row = build_row (lib E) parsed;
                 w'' = print (SectorLine (sector_main row) (bill_url row)) w'
             in process_links E (i + 1) n links (rows @ [row]) (w''\<lparr>sleeps := sleeps w'' + 1\<rparr>)))"

text \<open>The end of \<open>main\<close>: \<open>if rows: ... else: ...\<close>.\<close>

definition finish :: "output_row list \<Rightarrow> world \<Rightarrow> world" where
  "finish rows w =
    (if rows \<noteq> [] then save_rows_to_csv (take 500 rows) OUTPUT_CSV w
     else print NothingSaved w)"

definition main :: "env \<Rightarrow> int \<Rightarrow> world \<Rightarrow> world" where
  "main E limit w =
    (case fetch_period_page E w of
       (None, w') \<Rightarrow> print NoPeriodHtml w'
     | (Some html, w') \<Rightarrow>
         if html = [] then print NoPeriodHtml w'
         else
           (let links = extract_bill_links (lib E) html limit;
                w'' = print (FoundLinks (length links)) w';
                (rows, w''') = process_links E 1 (length links) links [] w''
            in finish rows w'''))"

text \<open>
  A field that the file can hold and the reader can take, and a row of such fields.
\<close>

definition field_ok :: "ustr \<Rightarrow> bool" where
  "field_ok f = (utf8_encodable f \<and> length f \<le> field_limit)"

definition row_ok :: "output_row \<Rightarrow> bool" where
  "row_ok r = list_all field_ok (row_values r)"

section \<open>Sample inputs\<close>

text \<open>A listing page with one anchor, and a library instance that reads it.\<close>

definition one_link_page :: ustr where
  "one_link_page = ascii ''<a href=/billInfo/Bills/Card/1>Bill 1</a>''"

definition one_link_lib :: pylib where
  "one_link_lib =
    sample_lib\<lparr>soup_anchors :=
      (\<lambda>html. if html = one_link_page then [(ascii ''/billInfo/Bills/Card/1'', ascii ''Bill 1'')]
              else [])\<rparr>"

text \<open>A row, an environment whose network answers every request with an empty page
  document, and the world before a run.\<close>

definition sample_row :: output_row where
  "sample_row =
    \<lparr>bill_url = ascii ''https://itd.rada.gov.ua/billInfo/Bills/Card/1'',
     title = ascii ''Bill 1, \"draft\"'',
     published_date = ascii ''01.02.2024'',
     status = ascii ''registered/accepted'',
     matched_sectors = label_agrarian @ ascii '';'' @ label_social,
     sector_main = label_agrarian,
     keywords_found = kw_zeml @ ascii '';'' @ kw_subsyd,
     risk_score = 10,
     summary = ascii ''First sentence. Second one, with a comma.''\<rparr>"

definition sample_env :: env where
  "sample_env =
    \<lparr>lib = sample_lib,
     http_get = (\<lambda>n url. Body (ascii ''<html></html>'')),
     parse_bill = (\<lambda>html url. \<lparr>pb_url = url, pb_title = ascii ''No title found'',
                     pb_published_date = [], pb_status = [], pb_full_text = html\<rparr>)\<rparr>"

definition initial_world :: world where
  "initial_world =
    \<lparr>requests = [], console = [], files = Map.empty, sleeps = 0, raised = None\<rparr>"

text \<open>A row whose title holds a lone surrogate (U+D800), as a numeric character
  reference in a page can give.\<close>

definition surrogate_row :: output_row where
  "surrogate_row = sample_row\<lparr>title := [66, 105, 108, 108, 32, 55296]\<rparr>"

section \<open>Risk score: the keyword loop\<close>

lemma add_keyword_counts_sum:
  "add_keyword_counts score matched keywords_map =
     score + (\<Sum>s\<leftarrow>matched. int (length (dict_get keywords_map s [])))"
  by (induction matched arbitrary: score) simp_all

section \<open>The scenario: land and subsidies\<close>

lemma sector_ids_distinct:
  "agrarian \<noteq> social" "agrarian \<noteq> corporate" "social \<noteq> corporate"
  "social \<noteq> agrarian" "corporate \<noteq> agrarian" "corporate \<noteq> social"
  "other \<noteq> agrarian" "other \<noteq> social" "other \<noteq> corporate"
  "agrarian \<noteq> other" "social \<noteq> other" "corporate \<noteq> other"
  by (simp_all add: agrarian_def social_def corporate_def other_def ascii_def)

lemma scenario_found_agrarian:
  assumes "list_all (\<lambda>kw. str_lower L kw = kw) agrarian_keywords"
  shows "found_keywords L scenario_text_lower agrarian_keywords = [kw_zeml, kw_subsyd]"
  using assms
  by (simp add: found_keywords_def agrarian_keywords_def scenario_text_lower_def
      str_in_def kw_zeml_def kw_subsyd_def)

lemma scenario_found_social:
  assumes "list_all (\<lambda>kw. str_lower L kw = kw) social_keywords"
  shows "found_keywords L scenario_text_lower social_keywords = []"
  using assms
  by (simp add: found_keywords_def social_keywords_def scenario_text_lower_def str_in_def)

lemma scenario_found_corporate:
  assumes "list_all (\<lambda>kw. str_lower L kw = kw) corporate_keywords"
  shows "found_keywords L scenario_text_lower corporate_keywords = []"
  using assms
  by (simp add: found_keywords_def corporate_keywords_def scenario_text_lower_def str_in_def)

lemma scenario_analysis:
  assumes low: "str_lower L scenario_text = scenario_text_lower"
      and kws: "list_all (\<lambda>kw. str_lower L kw = kw) (concat (map snd SECTOR_KEYWORDS))"
  shows "analyze_text_for_sectors L scenario_text =
           ([agrarian], [(agrarian, [kw_zeml, kw_subsyd]), (social, []), (corporate, [])])"
proof -
  from kws have a: "list_all (\<lambda>kw. str_lower L kw = kw) agrarian_keywords"
    and s: "list_all (\<lambda>kw. str_lower L kw = kw) social_keywords"
    and c: "list_all (\<lambda>kw. str_lower L kw = kw) corporate_keywords"
    by (simp_all add: SECTOR_KEYWORDS_def)
  have ne: "kw_zeml \<noteq> kw_subsyd"
    by (simp add: kw_zeml_def kw_subsyd_def)
  show ?thesis
    unfolding analyze_text_for_sectors_def Let_def low SECTOR_KEYWORDS_def
    by (simp add: scenario_found_agrarian [OF a] scenario_found_social [OF s]
        scenario_found_corporate [OF c] ne)
qed

text \<open>
  C4. For the scenario text, where lower-casing gives the lower-cased text and leaves the
  (already lower-case) keywords as they are, the matched sectors include agrarian, the
  keywords zeml and subsyd are both recorded for it, and the risk score of that
  classification is at least 4.
\<close>

theorem scenario_land_subsidies:
  assumes low: "str_lower L scenario_text = scenario_text_lower"
      and kws: "list_all (\<lambda>kw. str_lower L kw = kw) (concat (map snd SECTOR_KEYWORDS))"
  shows "agrarian \<in> set (fst (analyze_text_for_sectors L scenario_text))
       \<and> kw_zeml \<in> set (dict_get (snd (analyze_text_for_sectors L scenario_text)) agrarian [])
       \<and> kw_subsyd \<in> set (dict_get (snd (analyze_text_for_sectors L scenario_text)) agrarian [])
       \<and> 4 \<le> compute_risk_score L (fst (analyze_text_for_sectors L scenario_text))
               (snd (analyze_text_for_sectors L scenario_text)) scenario_text"
  unfolding scenario_analysis [OF low kws]
  by (simp add: dict_get_def compute_risk_score_def Let_def)

theorem scenario_land_subsidies_witness:
  "fst (analyze_text_for_sectors sample_lib scenario_text) = [agrarian]
   \<and> agrarian \<in> set (fst (analyze_text_for_sectors sample_lib scenario_text))
   \<and> kw_zeml \<in> set (dict_get (snd (analyze_text_for_sectors sample_lib scenario_text)) agrarian [])
   \<and> kw_subsyd \<in> set (dict_get (snd (analyze_text_for_sectors sample_lib scenario_text)) agrarian [])
   \<and> 4 \<le> compute_risk_score sample_lib (fst (analyze_text_for_sectors sample_lib scenario_text))
           (snd (analyze_text_for_sectors sample_lib scenario_text)) scenario_text"
proof -
  have low: "str_lower sample_lib scenario_text = scenario_text_lower"
    by (simp add: sample_lib_def sample_lower_cp_def scenario_text_def scenario_text_lower_def)
  have kws: "list_all (\<lambda>kw. str_lower sample_lib kw = kw) (concat (map snd SECTOR_KEYWORDS))"
    by (simp add: sample_lib_def sample_lower_cp_def SECTOR_KEYWORDS_def agrarian_keywords_def
        social_keywords_def corporate_keywords_def)
  have m: "fst (analyze_text_for_sectors sample_lib scenario_text) = [agrarian]"
    by (simp add: scenario_analysis [OF low kws])
  from scenario_land_subsidies [OF low kws] m show ?thesis
    by simp
qed

section \<open>Summarizer: length of the summary\<close>

lemma length_rsplit_space_head: "length (rsplit_space_head s) \<le> length s"
proof -
  have "length (dropWhile (\<lambda>c. c \<noteq> 32) (rev s)) \<le> length (rev s)"
    by (rule length_dropWhile_le)
  then have "length (dropWhile (\<lambda>c. c \<noteq> 32) (rev s)) - 1 \<le> length s"
    by simp
  then show ?thesis
    by (simp add: rsplit_space_head_def)
qed

lemma length_slice_to_nat: "length (slice_to s (int n)) \<le> n"
  by (simp add: slice_to_def)

lemma length_ellipsis: "length (ascii ''...'') = 3"
  by (simp add: ascii_def)

text \<open>
  C9. For every text and every character budget \<open>n\<close>, the summary has at most \<open>n + 3\<close>
  characters, and when the selected text fits the budget (nothing is truncated) the
  summary is the selected text and has at most \<open>n\<close> characters.
\<close>

theorem summarize_text_length:
  "length (summarize_text text (int n)) \<le> n + 3
   \<and> (length (selected_text text) \<le> n \<longrightarrow>
        summarize_text text (int n) = selected_text text
        \<and> length (summarize_text text (int n)) \<le> n)"
proof -
  have "length (rsplit_space_head (slice_to (selected_text text) (int n))) \<le> n"
    using length_rsplit_space_head [of "slice_to (selected_text text) (int n)"]
      length_slice_to_nat [of "selected_text text" n]
    by linarith
  then show ?thesis
    by (simp add: summarize_text_def Let_def length_ellipsis)
qed

theorem summarize_text_length_witness:
  "length (summarize_text (ascii ''abcdef'') (int 3)) = 3 + 3
   \<and> length (selected_text (ascii ''ab cd.  '')) \<le> 6
   \<and> summarize_text (ascii ''ab cd.  '') (int 6) = ascii ''ab cd.''
   \<and> length (summarize_text (ascii ''ab cd.  '') (int 6)) \<le> 6"
proof -
  have sel: "selected_text (ascii ''ab cd.  '') = ascii ''ab cd.''"
    by (simp add: selected_text_def ascii_def py_isspace_def sentence_punct_def strip_def)
  have long: "length (summarize_text (ascii ''abcdef'') (int 3)) = 3 + 3"
    by (simp add: summarize_text_def selected_text_def ascii_def py_isspace_def
        sentence_punct_def strip_def slice_to_def rsplit_space_head_def)
  from summarize_text_length [of "ascii ''ab cd.  ''" 6] sel long show ?thesis
    by (simp add: ascii_def)
qed

section \<open>Row builder: consistency of the classification fields\<close>

lemma str_join_Nil_iff:
  assumes "[] \<notin> set xs" and "sep \<noteq> []"
  shows "str_join sep xs = [] \<longleftrightarrow> xs = []"
proof (cases xs)
  case Nil
  then show ?thesis by simp
next
  case (Cons x ys)
  with assms show ?thesis by (cases ys) auto
qed

lemma takeWhile_str_join:
  assumes "c \<notin> set x"
  shows "takeWhile (\<lambda>d. d \<noteq> c) (str_join [c] (x # xs)) = x"
proof (cases xs)
  case Nil
  with assms show ?thesis by (simp add: takeWhile_eq_all_conv) auto
next
  case (Cons y ys)
  have "takeWhile (\<lambda>d. d \<noteq> c) (x @ c # str_join [c] (y # ys)) = x"
    using assms by (subst takeWhile_append2) auto
  with Cons show ?thesis by simp
qed

lemma found_keywords_subset: "set (found_keywords L low kws) \<subseteq> set kws"
  by (auto simp: found_keywords_def)

lemma keywords_nonempty:
  "[] \<notin> set agrarian_keywords" "[] \<notin> set social_keywords" "[] \<notin> set corporate_keywords"
  by (simp_all add: agrarian_keywords_def social_keywords_def corporate_keywords_def)

lemma found_keywords_nonempty:
  "[] \<notin> set (found_keywords L low agrarian_keywords)"
  "[] \<notin> set (found_keywords L low social_keywords)"
  "[] \<notin> set (found_keywords L low corporate_keywords)"
  using found_keywords_subset [of L low] keywords_nonempty by blast+

lemma analyze_text_for_sectors_unfold:
  "analyze_text_for_sectors L text =
     (map fst (filter (\<lambda>(s, lst). lst \<noteq> [])
        [(agrarian, found_keywords L (str_lower L text) agrarian_keywords),
         (social, found_keywords L (str_lower L text) social_keywords),
         (corporate, found_keywords L (str_lower L text) corporate_keywords)]),
      [(agrarian, remdups (found_keywords L (str_lower L text) agrarian_keywords)),
       (social, remdups (found_keywords L (str_lower L text) social_keywords)),
       (corporate, remdups (found_keywords L (str_lower L text) corporate_keywords))])"
  by (simp add: analyze_text_for_sectors_def SECTOR_KEYWORDS_def Let_def)

lemma sector_labels_get:
  "dict_get SECTOR_LABELS agrarian d = label_agrarian"
  "dict_get SECTOR_LABELS social d = label_social"
  "dict_get SECTOR_LABELS corporate d = label_corporate"
  "dict_get SECTOR_LABELS other d = label_other"
  by (simp_all add: dict_get_def SECTOR_LABELS_def sector_ids_distinct)

lemma labels_facts:
  "label_agrarian \<noteq> label_other" "label_social \<noteq> label_other"
  "label_corporate \<noteq> label_other"
  "label_agrarian \<noteq> []" "label_social \<noteq> []" "label_corporate \<noteq> []"
  "59 \<notin> set label_agrarian" "59 \<notin> set label_social" "59 \<notin> set label_corporate"
  by (simp_all add: label_agrarian_def label_social_def label_corporate_def label_other_def)

lemma semicolon: "ascii '';'' = [59]"
  by (simp add: ascii_def)

text \<open>
  C10. For every parsed bill, in the row that \<open>build_row\<close> produces, \<open>matched_sectors\<close>
  is empty exactly when \<open>sector_main\<close> is the Other label, exactly when \<open>keywords_found\<close>
  is empty; and when \<open>matched_sectors\<close> is not empty, \<open>sector_main\<close> is its first entry
  (the text before the first semicolon).
\<close>

theorem build_row_classification_consistent:
  "(matched_sectors (build_row L parsed) = [] \<longleftrightarrow> sector_main (build_row L parsed) = label_other)
   \<and> (sector_main (build_row L parsed) = label_other \<longleftrightarrow> keywords_found (build_row L parsed) = [])
   \<and> (matched_sectors (build_row L parsed) \<noteq> [] \<longrightarrow>
        sector_main (build_row L parsed)
          = takeWhile (\<lambda>c. c \<noteq> 59) (matched_sectors (build_row L parsed)))"
proof -
  define fa where "fa = found_keywords L (str_lower L (pb_full_text parsed)) agrarian_keywords"
  define fs where "fs = found_keywords L (str_lower L (pb_full_text parsed)) social_keywords"
  define fc where "fc = found_keywords L (str_lower L (pb_full_text parsed)) corporate_keywords"
  define kws where "kws = sort (remdups (concat (map snd
    [(agrarian, remdups fa), (social, remdups fs), (corporate, remdups fc)])))"
  have ne: "[] \<notin> set fa" "[] \<notin> set fs" "[] \<notin> set fc"
    unfolding fa_def fs_def fc_def by (rule found_keywords_nonempty)+
  have set_kws: "set kws = set fa \<union> set fs \<union> set fc"
    by (auto simp: kws_def)
  then have "[] \<notin> set kws"
    using ne by simp
  then have "str_join [59] kws = [] \<longleftrightarrow> kws = []"
    by (rule str_join_Nil_iff) simp
  also have "\<dots> \<longleftrightarrow> fa = [] \<and> fs = [] \<and> fc = []"
    using set_kws by (metis Un_empty set_empty)
  finally have kf: "str_join [59] kws = [] \<longleftrightarrow> fa = [] \<and> fs = [] \<and> fc = []" .
  have tw: "takeWhile (\<lambda>c. c \<noteq> 59) x = x"
    "takeWhile (\<lambda>c. c \<noteq> 59) (x @ 59 # r) = x" if "59 \<notin> set x" for x r :: ustr
    using that takeWhile_str_join [of 59 x "[]"] takeWhile_str_join [of 59 x "[r]"]
    by simp_all
  have row: "build_row L parsed =
    (let matched = map fst (filter (\<lambda>(s, lst). lst \<noteq> [])
            [(agrarian, fa), (social, fs), (corporate, fc)])
     in \<lparr>bill_url = pb_url parsed, title = pb_title parsed,
         published_date = pb_published_date parsed, status = pb_status parsed,
         matched_sectors = str_join [59] (map (\<lambda>s. dict_get SECTOR_LABELS s s) matched),
         sector_main = dict_get SECTOR_LABELS (case matched of [] \<Rightarrow> other | m # _ \<Rightarrow> m) label_other,
         keywords_found = str_join [59] kws,
         risk_score = compute_risk_score L matched
            [(agrarian, remdups fa), (social, remdups fs), (corporate, remdups fc)]
            (pb_full_text parsed),
         summary = summarize_text (pb_full_text parsed) 300\<rparr>)"
    by (simp add: build_row_def analyze_text_for_sectors_unfold Let_def semicolon
        fa_def fs_def fc_def kws_def)
  show ?thesis
    unfolding row Let_def
    by (cases "fa = []"; cases "fs = []"; cases "fc = []")
       (simp_all add: kf sector_labels_get labels_facts tw)
qed

theorem build_row_classification_consistent_witness:
  "matched_sectors (build_row sample_lib
      \<lparr>pb_url = [], pb_title = [], pb_published_date = [], pb_status = [],
       pb_full_text = scenario_text\<rparr>) = label_agrarian
   \<and> sector_main (build_row sample_lib
      \<lparr>pb_url = [], pb_title = [], pb_published_date = [], pb_status = [],
       pb_full_text = scenario_text\<rparr>) = label_agrarian"
proof -
  let ?p = "\<lparr>pb_url = [], pb_title = [], pb_published_date = [], pb_status = [],
       pb_full_text = scenario_text\<rparr>"
  have low: "str_lower sample_lib scenario_text = scenario_text_lower"
    by (simp add: sample_lib_def sample_lower_cp_def scenario_text_def scenario_text_lower_def)
  have kws: "list_all (\<lambda>kw. str_lower sample_lib kw = kw) (concat (map snd SECTOR_KEYWORDS))"
    by (simp add: sample_lib_def sample_lower_cp_def SECTOR_KEYWORDS_def agrarian_keywords_def
        social_keywords_def corporate_keywords_def)
  have m: "matched_sectors (build_row sample_lib ?p) = label_agrarian"
    by (simp add: build_row_def scenario_analysis [OF low kws] sector_labels_get)
  have "label_agrarian \<noteq> []" "takeWhile (\<lambda>c. c \<noteq> 59) label_agrarian = label_agrarian"
    by (simp_all add: label_agrarian_def)
  with build_row_classification_consistent [of sample_lib ?p] m show ?thesis
    by simp
qed

section \<open>Summarizer: the selection and the truncation\<close>

lemma boundary_at_Cons: "0 < k \<Longrightarrow> boundary_at (c # t) (Suc k) = boundary_at t k"
  by (cases k) (simp_all add: boundary_at_def)

lemma find_map_option: "find P (map f xs) = map_option f (find (P \<circ> f) xs)"
  by (induction xs) simp_all

lemma first_boundary_Nil: "first_boundary [] = None"
  by (simp add: first_boundary_def)

lemma first_boundary_single: "first_boundary [c] = None"
  by (simp add: first_boundary_def)

lemma first_boundary_Cons:
  "first_boundary (c # d # rest) =
     (if sentence_punct c \<and> py_isspace d then Some 1
      else map_option Suc (first_boundary (d # rest)))"
proof -
  have upt: "[1..<length (c # d # rest)] = 1 # map Suc [1..<length (d # rest)]"
    by (simp add: upt_conv_Cons map_Suc_upt del: upt_Suc)
  have shift: "find (boundary_at (c # d # rest) \<circ> Suc) [1..<length (d # rest)]
      = find (boundary_at (d # rest)) [1..<length (d # rest)]"
  proof (rule find_cong)
    fix x assume "x \<in> set [1..<length (d # rest)]"
    then have "0 < x" by (simp del: upt_Suc)
    then show "(boundary_at (c # d # rest) \<circ> Suc) x = boundary_at (d # rest) x"
      by (simp add: boundary_at_Cons)
  qed simp
  have one: "boundary_at (c # d # rest) 1 = (sentence_punct c \<and> py_isspace d)"
    by (simp add: boundary_at_def)
  have "first_boundary (c # d # rest)
      = find (boundary_at (c # d # rest)) (1 # map Suc [1..<length (d # rest)])"
    by (simp only: first_boundary_def upt)
  also have "\<dots> = (if boundary_at (c # d # rest) 1 then Some 1
      else map_option Suc (find (boundary_at (c # d # rest) \<circ> Suc) [1..<length (d # rest)]))"
    by (simp only: find.simps find_map_option)
  also have "\<dots> = (if sentence_punct c \<and> py_isspace d then Some 1
      else map_option Suc (first_boundary (d # rest)))"
    by (simp only: one shift first_boundary_def)
  finally show ?thesis .
qed

lemma re_split_sentences_first_boundary:
  "re_split_sentences cur text =
     (case first_boundary text of
        None \<Rightarrow> [cur @ text]
      | Some k \<Rightarrow> (cur @ take k text)
                   # re_split_sentences [] (dropWhile py_isspace (drop k text)))"
proof (induction cur "text" rule: re_split_sentences.induct)
  case (1 cur)
  show ?case by (simp add: first_boundary_Nil)
next
  case (2 cur c)
  show ?case by (simp add: first_boundary_single)
next
  case (3 cur c d rest)
  show ?case
  proof (cases "sentence_punct c \<and> py_isspace d")
    case True
    then show ?thesis by (simp add: first_boundary_Cons)
  next
    case False
    with 3 have "re_split_sentences (cur @ [c]) (d # rest) =
        (case first_boundary (d # rest) of
           None \<Rightarrow> [(cur @ [c]) @ d # rest]
         | Some k \<Rightarrow> ((cur @ [c]) @ take k (d # rest))
                      # re_split_sentences [] (dropWhile py_isspace (drop k (d # rest))))"
      by blast
    moreover have "re_split_sentences cur (c # d # rest)
        = re_split_sentences (cur @ [c]) (d # rest)"
      using False by auto
    moreover have "first_boundary (c # d # rest) = map_option Suc (first_boundary (d # rest))"
      using False by (auto simp: first_boundary_Cons)
    ultimately show ?thesis
      by (simp split: option.splits)
  qed
qed

lemma re_split_sentences_hd:
  "\<exists>ps. re_split_sentences [] text =
     (case first_boundary text of None \<Rightarrow> text | Some j \<Rightarrow> take j text) # ps"
  by (subst re_split_sentences_first_boundary) (simp split: option.splits)

lemma selected_text_eq: "selected_text text = strip (first_two_sentences text)"
proof (cases "first_boundary text")
  case None
  then have "re_split_sentences [] text = [text]"
    by (subst re_split_sentences_first_boundary) simp
  with None show ?thesis
    by (simp add: selected_text_def first_two_sentences_def)
next
  case (Some k)
  let ?rest = "dropWhile py_isspace (drop k text)"
  let ?second = "case first_boundary ?rest of None \<Rightarrow> ?rest | Some j \<Rightarrow> take j ?rest"
  obtain ps where ps: "re_split_sentences [] ?rest = ?second # ps"
    using re_split_sentences_hd by blast
  have "re_split_sentences [] text = take k text # re_split_sentences [] ?rest"
    using Some by (subst re_split_sentences_first_boundary) simp
  then have "re_split_sentences [] text = take k text # ?second # ps"
    by (simp only: ps)
  with Some show ?thesis
    by (simp add: selected_text_def first_two_sentences_def Let_def)
qed

text \<open>
  C5, as amended. For every text and every budget, the summary is: the first two
  sentences joined, or the single sentence when the text has no sentence boundary; with
  leading and trailing whitespace removed; and, when that exceeds the budget, cut to the
  budget, then back to before the last space, with the ellipsis appended.
\<close>

theorem summarize_text_amended:
  "summarize_text text (int n) = summary_amended text n"
  by (simp add: summarize_text_def summary_amended_def truncate_to_budget_def
      selected_text_eq slice_to_def Let_def)

text \<open>
  C5, as claimed, fails on a one-sentence text that begins with a space: the summary is
  the sentence without the space, not the sentence.
\<close>

theorem summarize_text_claimed_counterexample:
  "summarize_text (ascii '' a'') 300 = ascii ''a''
   \<and> summary_as_claimed (ascii '' a'') 300 = ascii '' a''
   \<and> summarize_text (ascii '' a'') 300 \<noteq> summary_as_claimed (ascii '' a'') 300"
proof -
  have code: "summarize_text (ascii '' a'') 300 = ascii ''a''"
    by (simp add: summarize_text_def selected_text_def ascii_def py_isspace_def
        sentence_punct_def strip_def)
  have claimed: "summary_as_claimed (ascii '' a'') 300 = ascii '' a''"
    by (simp add: summary_as_claimed_def truncate_to_budget_def first_two_sentences_def
        first_boundary_def boundary_at_def ascii_def py_isspace_def sentence_punct_def)
  show ?thesis
    unfolding code claimed by (simp add: ascii_def)
qed

theorem summarize_text_amended_witness:
  "summarize_text (ascii ''  Ab cd. Ef gh!  Ij.'') (int 10) = ascii ''Ab cd. Ef...''"
proof -
  have "summary_amended (ascii ''  Ab cd. Ef gh!  Ij.'') 10 = ascii ''Ab cd. Ef...''"
    by (simp add: summary_amended_def truncate_to_budget_def first_two_sentences_def
        first_boundary_def boundary_at_def strip_def ascii_def py_isspace_def
        sentence_punct_def rsplit_space_head_def)
  with summarize_text_amended [of "ascii ''  Ab cd. Ef gh!  Ij.''" 10] show ?thesis
    by simp
qed

section \<open>Link extractor: the limit, duplicates and order\<close>

lemma unique_links_first_seen:
  "int (length uniq) < limit \<Longrightarrow>
   unique_links seen uniq links limit =
     uniq @ take (nat limit - length uniq) (first_seen (filter (\<lambda>(t, u). u \<notin> seen) links))"
proof (induction links arbitrary: seen uniq)
  case Nil
  then show ?case by simp
next
  case (Cons link links)
  obtain t u where link: "link = (t, u)" by (cases link)
  show ?case
  proof (cases "u \<in> seen")
    case True
    with Cons link show ?thesis by simp
  next
    case False
    have flt: "filter (\<lambda>(t', u'). u' \<noteq> u) (filter (\<lambda>(t, u). u \<notin> seen) links)
        = filter (\<lambda>(t', u'). u' \<notin> insert u seen) links"
      by (induction links) auto
    show ?thesis
    proof (cases "int (length (uniq @ [(t, u)])) \<ge> limit")
      case True
      with Cons.prems have "nat limit - length uniq = Suc 0" by simp
      with True False link show ?thesis by simp
    next
      case stay: False
      then have lt: "int (length (uniq @ [(t, u)])) < limit" by simp
      then have "nat limit - length uniq = Suc (nat limit - length (uniq @ [(t, u)]))"
        by simp
      with Cons.IH [OF lt, of "insert u seen"] stay False link flt show ?thesis
        by simp
    qed
  qed
qed

lemma first_seen_urls: "set (map snd (first_seen links)) \<subseteq> set (map snd links)"
  by (induction links rule: first_seen.induct) auto

lemma distinct_first_seen: "distinct (map snd (first_seen links))"
proof (induction links rule: first_seen.induct)
  case 1
  show ?case by simp
next
  case (2 t u links)
  have "u \<notin> set (map snd (filter (\<lambda>(t', u'). u' \<noteq> u) links))"
    by auto
  with first_seen_urls have "u \<notin> set (map snd (first_seen (filter (\<lambda>(t', u'). u' \<noteq> u) links)))"
    by blast
  with 2 show ?case by simp
qed

text \<open>
  For a limit of at least 1 the extractor returns the first \<open>limit\<close> entries in
  first-seen order of their URLs, so at most \<open>limit\<close> entries, with no URL twice.
\<close>

lemma extract_bill_links_positive_limit:
  assumes "1 \<le> limit"
  shows "extract_bill_links L html limit
           = take (nat limit) (first_seen (collect_links L (soup_anchors L html)))"
    and "int (length (extract_bill_links L html limit)) \<le> limit"
    and "distinct (map snd (extract_bill_links L html limit))"
proof -
  from assms have "int (length ([] :: (ustr \<times> ustr) list)) < limit" by simp
  from unique_links_first_seen [OF this, of "{}"]
  show eq: "extract_bill_links L html limit
           = take (nat limit) (first_seen (collect_links L (soup_anchors L html)))"
    by (simp add: extract_bill_links_def)
  from assms show "int (length (extract_bill_links L html limit)) \<le> limit"
    unfolding eq by simp
  show "distinct (map snd (extract_bill_links L html limit))"
    unfolding eq take_map [symmetric] by (rule distinct_take) (rule distinct_first_seen)
qed

text \<open>
  For a limit of 0 or less the loop still appends the first link before it tests the
  limit: the result is the first collected link.
\<close>

lemma extract_bill_links_nonpositive_limit:
  assumes "limit \<le> 0"
  shows "extract_bill_links L html limit = take 1 (collect_links L (soup_anchors L html))"
proof (cases "collect_links L (soup_anchors L html)")
  case Nil
  then show ?thesis by (simp add: extract_bill_links_def)
next
  case (Cons link links)
  obtain t u where "link = (t, u)" by (cases link)
  with Cons assms show ?thesis by (simp add: extract_bill_links_def)
qed

text \<open>
  C3. The claim (at most \<open>limit\<close> entries, for every limit) against the code at a page
  with one bill link and the limit 0: the extractor returns one entry.
\<close>

theorem extract_bill_links_limit_zero:
  "extract_bill_links one_link_lib one_link_page 0
     = [(ascii ''Bill 1'', ascii ''https://itd.rada.gov.ua/billInfo/Bills/Card/1'')]
   \<and> \<not> int (length (extract_bill_links one_link_lib one_link_page 0)) \<le> 0"
proof -
  have keep: "is_bill_href one_link_lib (ascii ''/billInfo/Bills/Card/1'')"
    by (simp add: is_bill_href_def one_link_lib_def sample_lib_def sample_lower_cp_def
        str_in_def ascii_def)
  have "collect_links one_link_lib (soup_anchors one_link_lib one_link_page)
      = [(ascii ''Bill 1'', ascii ''https://itd.rada.gov.ua/billInfo/Bills/Card/1'')]"
    using keep
    by (simp add: collect_links_def one_link_lib_def sample_lib_def BASE_PORTAL_def ascii_def)
  then show ?thesis
    by (simp add: extract_bill_links_def)
qed

section \<open>The run with no links\<close>

text \<open>
  C6. For every run in which the listing page is fetched and the extractor returns no
  link: the only request made is the one for the listing page, no file is created or
  overwritten, and the console ends with the nothing-saved notice.
\<close>

theorem main_zero_links:
  assumes page: "http_get E (length (requests w)) PERIOD_LIST_URL = Body html"
      and nonempty: "html \<noteq> []"
      and zero: "extract_bill_links (lib E) html limit = []"
  shows "requests (main E limit w) = requests w @ [PERIOD_LIST_URL]
       \<and> files (main E limit w) = files w
       \<and> console (main E limit w) = console w @ [FoundLinks 0, NothingSaved]"
  using assms
  by (simp add: main_def fetch_period_page_def request_def finish_def print_def)

theorem main_zero_links_witness:
  "requests (main sample_env 50 initial_world) = [PERIOD_LIST_URL]
   \<and> files (main sample_env 50 initial_world) = Map.empty
   \<and> console (main sample_env 50 initial_world) = [FoundLinks 0, NothingSaved]"
proof -
  have page: "http_get sample_env (length (requests initial_world)) PERIOD_LIST_URL
      = Body (ascii ''<html></html>'')"
    by (simp add: sample_env_def)
  have nonempty: "ascii ''<html></html>'' \<noteq> []"
    by (simp add: ascii_def)
  have zero: "extract_bill_links (lib sample_env) (ascii ''<html></html>'') 50 = []"
    by (simp add: extract_bill_links_def collect_links_def sample_env_def sample_lib_def)
  from main_zero_links [OF page nonempty zero] show ?thesis
    by (simp add: initial_world_def)
qed

section \<open>CSV: what is written is read back\<close>

lemma split_lines_Nil_iff: "split_lines cs = [] \<longleftrightarrow> cs = []"
  by (cases cs) (auto split: list.splits)

lemma line_syms_Nil: "line_syms [] = []"
  by (simp add: line_syms_def)

lemma line_syms_Cons:
  "line_syms (c # cs) =
     Ch c # (if c = 10 \<or> (c = 13 \<and> (cs = [] \<or> hd cs \<noteq> 10)) \<or> cs = []
             then EOL # line_syms cs else line_syms cs)"
proof (cases "c = 10 \<or> c = 13")
  case True
  then show ?thesis
    by (cases cs) (auto simp: line_syms_def)
next
  case False
  show ?thesis
  proof (cases "split_lines cs")
    case Nil
    then have "cs = []" by (simp add: split_lines_Nil_iff)
    with False show ?thesis by (simp add: line_syms_def)
  next
    case (Cons l ls)
    then have "cs \<noteq> []" by auto
    with False Cons show ?thesis by (simp add: line_syms_def)
  qed
qed

lemma line_syms_crlf: "line_syms (13 # 10 # cs) = Ch 13 # Ch 10 # EOL # line_syms cs"
  by (simp add: line_syms_Cons)

lemmas reader_steps = process_char_def start_field_def save_field_def add_char_def

lemma read_quoted_char:
  assumes "c \<noteq> 34" and "t \<noteq> []" and "length acc < field_limit"
  shows "read_syms \<lparr>state = IN_QUOTED_FIELD, field = acc, saved = fs\<rparr> (line_syms (c # t))
       = read_syms \<lparr>state = IN_QUOTED_FIELD, field = acc @ [c], saved = fs\<rparr> (line_syms t)"
  using assms by (simp add: line_syms_Cons reader_steps)

lemma read_quoted_quote:
  assumes "t \<noteq> []" and "length acc < field_limit"
  shows "read_syms \<lparr>state = IN_QUOTED_FIELD, field = acc, saved = fs\<rparr> (line_syms (34 # 34 # t))
       = read_syms \<lparr>state = IN_QUOTED_FIELD, field = acc @ [34], saved = fs\<rparr> (line_syms t)"
  using assms by (simp add: line_syms_Cons reader_steps)

lemma read_quoted_body:
  assumes "rest \<noteq> []" and "length acc + length f \<le> field_limit"
  shows "read_syms \<lparr>state = IN_QUOTED_FIELD, field = acc, saved = fs\<rparr>
           (line_syms (concat (map (\<lambda>c. if c = 34 then [34, 34] else [c]) f) @ 34 # rest))
       = read_syms \<lparr>state = QUOTE_IN_QUOTED_FIELD, field = acc @ f, saved = fs\<rparr>
           (line_syms rest)"
  using assms(2)
proof (induction f arbitrary: acc)
  case Nil
  from assms(1) show ?case by (simp add: line_syms_Cons reader_steps)
next
  case (Cons c f)
  let ?t = "concat (map (\<lambda>c. if c = 34 then [34, 34] else [c]) f) @ 34 # rest"
  have t: "?t \<noteq> []" by simp
  from Cons.prems have lt: "length acc < field_limit"
    and le: "length (acc @ [c]) + length f \<le> field_limit" by simp_all
  show ?case
  proof (cases "c = 34")
    case True
    with read_quoted_quote [OF t lt, of fs] Cons.IH [OF le] show ?thesis
      by simp
  next
    case False
    with read_quoted_char [OF False t lt, of fs] Cons.IH [OF le] show ?thesis
      by simp
  qed
qed

lemma read_open_quote:
  assumes "st = START_RECORD \<or> st = START_FIELD" and "t \<noteq> []"
  shows "read_syms \<lparr>state = st, field = acc, saved = fs\<rparr> (line_syms (34 # t))
       = read_syms \<lparr>state = IN_QUOTED_FIELD, field = acc, saved = fs\<rparr> (line_syms t)"
  using assms by (auto simp: line_syms_Cons reader_steps)

lemma read_plain_char:
  assumes "st = START_RECORD \<or> st = START_FIELD \<or> st = IN_FIELD"
      and "\<not> csv_special c" and "t \<noteq> []" and "length acc < field_limit"
  shows "read_syms \<lparr>state = st, field = acc, saved = fs\<rparr> (line_syms (c # t))
       = read_syms \<lparr>state = IN_FIELD, field = acc @ [c], saved = fs\<rparr> (line_syms t)"
  using assms by (auto simp: line_syms_Cons reader_steps csv_special_def)

lemma read_plain_body:
  assumes "\<not> list_ex csv_special f" and "rest \<noteq> []"
      and "length acc + length f \<le> field_limit"
  shows "read_syms \<lparr>state = IN_FIELD, field = acc, saved = fs\<rparr> (line_syms (f @ rest))
       = read_syms \<lparr>state = IN_FIELD, field = acc @ f, saved = fs\<rparr> (line_syms rest)"
  using assms
proof (induction f arbitrary: acc)
  case Nil
  show ?case by simp
next
  case (Cons c f)
  then have c: "\<not> csv_special c" and f: "\<not> list_ex csv_special f"
    and lt: "length acc < field_limit"
    and le: "length (acc @ [c]) + length f \<le> field_limit" by simp_all
  have "f @ rest \<noteq> []" using Cons.prems by simp
  from read_plain_char [OF _ c this lt, of IN_FIELD fs] Cons.IH [OF f Cons.prems(2) le]
  show ?case by simp
qed

lemma read_delimiter:
  assumes "st \<noteq> IN_QUOTED_FIELD" and "st \<noteq> EAT_CRNL" and "t \<noteq> []"
  shows "read_syms \<lparr>state = st, field = acc, saved = fs\<rparr> (line_syms (44 # t))
       = read_syms \<lparr>state = START_FIELD, field = [], saved = fs @ [acc]\<rparr> (line_syms t)"
  using assms by (cases st) (simp_all add: line_syms_Cons reader_steps)

lemma read_record_end:
  assumes "st = START_FIELD \<or> st = IN_FIELD \<or> st = QUOTE_IN_QUOTED_FIELD"
  shows "read_syms \<lparr>state = st, field = acc, saved = fs\<rparr> (line_syms (13 # 10 # t))
       = map_option ((#) (fs @ [acc])) (read_syms new_reader (line_syms t))"
  using assms by (auto simp: line_syms_crlf reader_steps)

lemma read_empty_record:
  "read_syms new_reader (line_syms (13 # 10 # t))
     = map_option ((#) []) (read_syms new_reader (line_syms t))"
  by (simp add: line_syms_crlf reader_steps new_reader_def)

lemma read_field:
  assumes st: "st = START_RECORD \<or> st = START_FIELD" and rest: "rest \<noteq> []"
      and len: "length f \<le> field_limit"
  shows "read_syms \<lparr>state = st, field = [], saved = fs\<rparr> (line_syms (csv_field f @ rest))
       = read_syms \<lparr>state = after_field st f, field = f, saved = fs\<rparr> (line_syms rest)"
proof (cases "list_ex csv_special f")
  case True
  then have ne: "f \<noteq> []" by auto
  let ?body = "concat (map (\<lambda>c. if c = 34 then [34, 34] else [c]) f) @ 34 # rest"
  have "read_syms \<lparr>state = st, field = [], saved = fs\<rparr> (line_syms (34 # ?body))
      = read_syms \<lparr>state = IN_QUOTED_FIELD, field = [], saved = fs\<rparr> (line_syms ?body)"
    by (rule read_open_quote [OF st]) simp
  also have "\<dots> = read_syms \<lparr>state = QUOTE_IN_QUOTED_FIELD, field = [] @ f, saved = fs\<rparr>
      (line_syms rest)"
    using len by (intro read_quoted_body [OF rest]) simp
  finally show ?thesis
    using True ne by (simp add: csv_field_def csv_quoted_def after_field_def)
next
  case False
  show ?thesis
  proof (cases f)
    case Nil
    then show ?thesis by (simp add: csv_field_def after_field_def)
  next
    case (Cons c f')
    with False have c: "\<not> csv_special c" and f': "\<not> list_ex csv_special f'" by simp_all
    from Cons len have lt: "length ([] :: ustr) < field_limit"
      and le: "length ([] @ [c]) + length f' \<le> field_limit" by simp_all
    have "read_syms \<lparr>state = st, field = [], saved = fs\<rparr> (line_syms (c # f' @ rest))
        = read_syms \<lparr>state = IN_FIELD, field = [] @ [c], saved = fs\<rparr> (line_syms (f' @ rest))"
      using st rest by (intro read_plain_char [OF _ c _ lt]) auto
    also have "\<dots> = read_syms \<lparr>state = IN_FIELD, field = ([] @ [c]) @ f', saved = fs\<rparr>
        (line_syms rest)"
      by (rule read_plain_body [OF f' rest le])
    finally show ?thesis
      using False Cons by (simp add: csv_field_def after_field_def)
  qed
qed

lemma read_fields:
  assumes "st = START_RECORD \<or> st = START_FIELD" and "vals \<noteq> []"
      and "\<not> (st = START_RECORD \<and> vals = [[]])"
      and "list_all (\<lambda>f. length f \<le> field_limit) vals"
  shows "read_syms \<lparr>state = st, field = [], saved = fs\<rparr>
           (line_syms (str_join [44] (map csv_field vals) @ 13 # 10 # t))
       = map_option ((#) (fs @ vals)) (read_syms new_reader (line_syms t))"
  using assms
proof (induction vals arbitrary: st fs)
  case Nil
  then show ?case by simp
next
  case (Cons f vals)
  from Cons.prems(4) have len: "length f \<le> field_limit"
    and lens: "list_all (\<lambda>f. length f \<le> field_limit) vals" by simp_all
  show ?case
  proof (cases vals)
    case Nil
    have "read_syms \<lparr>state = st, field = [], saved = fs\<rparr> (line_syms (csv_field f @ 13 # 10 # t))
        = read_syms \<lparr>state = after_field st f, field = f, saved = fs\<rparr> (line_syms (13 # 10 # t))"
      by (rule read_field [OF Cons.prems(1) _ len]) simp
    also have "\<dots> = map_option ((#) (fs @ [f])) (read_syms new_reader (line_syms t))"
      using Cons.prems(1,3) Nil by (intro read_record_end) (auto simp: after_field_def)
    finally show ?thesis
      using Nil by simp
  next
    case (Cons g more)
    let ?tail = "str_join [44] (map csv_field (g # more)) @ 13 # 10 # t"
    have "read_syms \<lparr>state = st, field = [], saved = fs\<rparr> (line_syms (csv_field f @ 44 # ?tail))
        = read_syms \<lparr>state = after_field st f, field = f, saved = fs\<rparr> (line_syms (44 # ?tail))"
      by (rule read_field [OF Cons.prems(1) _ len]) simp
    also have "\<dots> = read_syms \<lparr>state = START_FIELD, field = [], saved = fs @ [f]\<rparr> (line_syms ?tail)"
      using Cons.prems(1) by (intro read_delimiter) (auto simp: after_field_def)
    also have "\<dots> = map_option ((#) ((fs @ [f]) @ g # more)) (read_syms new_reader (line_syms t))"
      using lens by (intro Cons.IH [unfolded Cons]) (simp_all add: Cons)
    finally show ?thesis
      using Cons by simp
  qed
qed

lemma read_written_row:
  assumes "list_all (\<lambda>f. length f \<le> field_limit) vals"
  shows "read_syms new_reader (line_syms (csv_writerow vals @ t))
     = map_option ((#) vals) (read_syms new_reader (line_syms t))"
proof -
  consider "vals = []" | "vals = [[]]" | "vals \<noteq> []" "vals \<noteq> [[]]" by blast
  then show ?thesis
  proof cases
    case 1
    then show ?thesis by (simp add: csv_writerow_def read_empty_record)
  next
    case 2
    have "read_syms new_reader (line_syms (34 # 34 # 13 # 10 # t))
        = map_option ((#) [[]]) (read_syms new_reader (line_syms t))"
      by (simp add: line_syms_Cons reader_steps new_reader_def)
    with 2 show ?thesis by (simp add: csv_writerow_def)
  next
    case 3
    from read_fields [of START_RECORD vals "[]" t] 3 assms show ?thesis
      by (simp add: csv_writerow_def new_reader_def)
  qed
qed

lemma csv_reader_written_rows:
  assumes "list_all (list_all (\<lambda>f. length f \<le> field_limit)) rows"
  shows "csv_reader (concat (map csv_writerow rows)) = Some rows"
proof -
  have "read_syms new_reader (line_syms (concat (map csv_writerow rows))) = Some rows"
    using assms
  proof (induction rows)
    case Nil
    show ?case by (simp add: line_syms_Nil new_reader_def)
  next
    case (Cons vals rows)
    then show ?case by (simp add: read_written_row)
  qed
  then show ?thesis by (simp add: csv_reader_def)
qed

lemma utf8_encodable_append [simp]:
  "utf8_encodable (a @ b) \<longleftrightarrow> utf8_encodable a \<and> utf8_encodable b"
  by (simp add: utf8_encodable_def)

lemma utf8_encodable_doubled_quotes:
  "utf8_encodable f \<Longrightarrow>
   utf8_encodable (concat (map (\<lambda>c. if c = 34 then [34, 34] else [c]) f))"
  by (induction f) (simp_all add: utf8_encodable_def)

lemma utf8_encodable_csv_field: "utf8_encodable f \<Longrightarrow> utf8_encodable (csv_field f)"
  using utf8_encodable_doubled_quotes [of f]
  by (simp add: csv_field_def csv_quoted_def) (simp add: utf8_encodable_def)

lemma utf8_encodable_str_join:
  "list_all utf8_encodable xs \<Longrightarrow> utf8_encodable (str_join [44] xs)"
  by (induction "[44] :: ustr" xs rule: str_join.induct) (simp_all add: utf8_encodable_def)

lemma utf8_encodable_csv_writerow:
  assumes "list_all utf8_encodable vals"
  shows "utf8_encodable (csv_writerow vals)"
proof -
  from assms have "list_all utf8_encodable (map csv_field vals)"
    by (induction vals) (simp_all add: utf8_encodable_csv_field)
  then have "utf8_encodable (str_join [44] (map csv_field vals))"
    by (rule utf8_encodable_str_join)
  then show ?thesis
    by (simp add: csv_writerow_def) (simp add: utf8_encodable_def)
qed

lemma write_lines_encodable:
  "list_all utf8_encodable ls \<Longrightarrow> write_lines content ls = (content @ concat ls, None)"
  by (induction ls arbitrary: content) simp_all

lemma fieldnames_ok: "list_all field_ok fieldnames"
  by (simp add: fieldnames_def field_ok_def utf8_encodable_def field_limit_def ascii_def)

lemma header_encodable: "utf8_encodable (csv_writerow fieldnames)"
  using fieldnames_ok
  by (intro utf8_encodable_csv_writerow) (simp add: list_all_iff field_ok_def)

lemma fieldnames_within_limit:
  "list_all (list_all (\<lambda>f. length f \<le> field_limit)) [fieldnames]"
  using fieldnames_ok by (simp add: list_all_iff field_ok_def)

lemma length_row_values: "length (row_values r) = 9"
  by (simp add: row_values_def)

lemma row_values_sample_row:
  "row_values sample_row =
     [ascii ''https://itd.rada.gov.ua/billInfo/Bills/Card/1'', ascii ''Bill 1, \"draft\"'',
          ascii ''01.02.2024'', ascii ''registered/accepted'',
          label_agrarian @ ascii '';'' @ label_social, label_agrarian,
          kw_zeml @ ascii '';'' @ kw_subsyd, ascii ''10'',
          ascii ''First sentence. Second one, with a comma.'']"
  by (simp add: row_values_def sample_row_def str_int_def ascii_def)

lemma row_ok_sample_row: "row_ok sample_row"
  by (simp add: row_ok_def row_values_def sample_row_def field_ok_def utf8_encodable_def
      field_limit_def str_int_def ascii_def label_agrarian_def label_social_def kw_zeml_def
      kw_subsyd_def)

lemma set_csv_field: "set f \<subseteq> set (csv_field f)"
  by (auto simp: csv_field_def csv_quoted_def)

lemma set_str_join: "x \<in> set xs \<Longrightarrow> set x \<subseteq> set (str_join sep xs)"
  by (induction sep xs rule: str_join.induct) auto

lemma not_encodable_csv_writerow:
  assumes "f \<in> set vals" and "\<not> utf8_encodable f"
  shows "\<not> utf8_encodable (csv_writerow vals)"
proof -
  from assms(2) have "f \<noteq> []"
    by (auto simp: utf8_encodable_def)
  with assms(1) have single: "vals \<noteq> [[]]"
    by auto
  from assms(1) have "csv_field f \<in> set (map csv_field vals)"
    by simp
  then have "set (csv_field f) \<subseteq> set (str_join [44] (map csv_field vals))"
    by (rule set_str_join)
  with set_csv_field [of f] have "set f \<subseteq> set (csv_writerow vals)"
    using single by (auto simp: csv_writerow_def)
  with assms(2) show ?thesis
    by (auto simp: utf8_encodable_def list_all_iff)
qed

lemma surrogate_row_not_encodable: "\<not> utf8_encodable (csv_writerow (row_values surrogate_row))"
proof (rule not_encodable_csv_writerow)
  show "title surrogate_row \<in> set (row_values surrogate_row)"
    by (simp add: row_values_def)
  show "\<not> utf8_encodable (title surrogate_row)"
    by (simp add: surrogate_row_def utf8_encodable_def)
qed

text \<open>
  When every field of every row can be encoded and is within the reader's limit, the
  writing raises nothing and the file reads back as the header and the rows.
\<close>

lemma saved_file_reads_back:
  assumes "list_all row_ok rows"
  shows "Option.bind (files (save_rows_to_csv rows output w) output) csv_reader
           = Some (fieldnames # map row_values rows)"
    and "raised (save_rows_to_csv rows output w) = raised w"
proof -
  let ?lines = "csv_writerow fieldnames # map (\<lambda>r. csv_writerow (row_values r)) rows"
  from assms have enc: "list_all utf8_encodable ?lines"
    by (auto simp: list_all_iff row_ok_def field_ok_def header_encodable
        intro!: utf8_encodable_csv_writerow)
  from assms fieldnames_ok
  have len: "list_all (list_all (\<lambda>f. length f \<le> field_limit)) (fieldnames # map row_values rows)"
    by (auto simp: list_all_iff row_ok_def field_ok_def)
  have lines: "concat ?lines = concat (map csv_writerow (fieldnames # map row_values rows))"
    by (simp add: comp_def)
  have written: "write_lines [] ?lines = (concat ?lines, None)"
    using write_lines_encodable [OF enc, of "[]"] by (simp only: append_Nil)
  have saved: "save_rows_to_csv rows output w
      = print (Saved (length rows) output) (w\<lparr>files := (files w)(output \<mapsto> concat ?lines)\<rparr>)"
    unfolding save_rows_to_csv_def written by simp
  show "Option.bind (files (save_rows_to_csv rows output w) output) csv_reader
           = Some (fieldnames # map row_values rows)"
    unfolding saved lines using csv_reader_written_rows [OF len] by (simp add: print_def)
  show "raised (save_rows_to_csv rows output w) = raised w"
    unfolding saved by (simp add: print_def)
qed

text \<open>
  C8, as amended. For every list of output rows whose fields hold no surrogate and at
  most 131072 characters each, the writing raises nothing and the file that
  \<open>save_rows_to_csv\<close> writes, read by the CSV reader, gives the header and then, for
  every row, its nine field values, the integer \<open>risk_score\<close> as the decimal text the
  writer renders. Commas, quotes and line breaks inside the fields need no assumption.
\<close>

theorem csv_round_trip:
  assumes "list_all row_ok rows"
  shows "raised (save_rows_to_csv rows output w) = raised w
       \<and> Option.bind (files (save_rows_to_csv rows output w) output) csv_reader
           = Some (fieldnames # map row_values rows)
       \<and> list_all (\<lambda>r. length (row_values r) = 9
                        \<and> row_values r ! 7 = str_int (risk_score r)) rows"
  using saved_file_reads_back [OF assms, of "output" w]
  by (simp add: list_all_iff length_row_values) (simp add: row_values_def)

theorem csv_round_trip_witness:
  "raised (save_rows_to_csv [sample_row] OUTPUT_CSV initial_world) = None
   \<and> Option.bind (files (save_rows_to_csv [sample_row] OUTPUT_CSV initial_world) OUTPUT_CSV) csv_reader
     = Some [
         [ascii ''bill_url'', ascii ''title'', ascii ''published_date'', ascii ''status'',
          ascii ''matched_sectors'', ascii ''sector_main'', ascii ''keywords_found'',
          ascii ''risk_score'', ascii ''summary''],
         [ascii ''https://itd.rada.gov.ua/billInfo/Bills/Card/1'', ascii ''Bill 1, \"draft\"'',
          ascii ''01.02.2024'', ascii ''registered/accepted'',
          label_agrarian @ ascii '';'' @ label_social, label_agrarian,
          kw_zeml @ ascii '';'' @ kw_subsyd, ascii ''10'',
          ascii ''First sentence. Second one, with a comma.'']]"
proof -
  have ok: "list_all row_ok [sample_row]"
    by (simp add: row_ok_sample_row)
  from csv_round_trip [OF ok, of OUTPUT_CSV initial_world] show ?thesis
    by (simp add: row_values_sample_row fieldnames_def initial_world_def)
qed

text \<open>
  C8, as claimed (for every output row), fails on a row whose title holds a surrogate:
  the write of the row raises, the file holds the header only, and reading it back does
  not give the row.
\<close>

theorem csv_round_trip_claimed_counterexample:
  "raised (save_rows_to_csv [surrogate_row] OUTPUT_CSV initial_world) = Some UnicodeEncodeError
   \<and> Option.bind (files (save_rows_to_csv [surrogate_row] OUTPUT_CSV initial_world) OUTPUT_CSV)
        csv_reader = Some [fieldnames]
   \<and> Option.bind (files (save_rows_to_csv [surrogate_row] OUTPUT_CSV initial_world) OUTPUT_CSV)
        csv_reader \<noteq> Some (fieldnames # map row_values [surrogate_row])"
proof -
  have "files (save_rows_to_csv [surrogate_row] OUTPUT_CSV initial_world) OUTPUT_CSV
      = Some (csv_writerow fieldnames)"
    and r: "raised (save_rows_to_csv [surrogate_row] OUTPUT_CSV initial_world)
      = Some UnicodeEncodeError"
    using header_encodable surrogate_row_not_encodable
    by (simp_all add: save_rows_to_csv_def)
  then have "Option.bind (files (save_rows_to_csv [surrogate_row] OUTPUT_CSV initial_world)
      OUTPUT_CSV) csv_reader = Some [fieldnames]"
    using csv_reader_written_rows [of "[fieldnames]"] fieldnames_within_limit by simp
  with r show ?thesis
    by simp
qed

section \<open>The CSV-writing stage\<close>




section \<open>Risk score: the formula and the range\<close>

text \<open>
  On the classifier's own output the keyword term counts every keyword of the map: a
  sector that is not matched has no keyword recorded.
\<close>

lemma keyword_count_of_analysis:
  assumes "analyze_text_for_sectors L body = (matched, keywords_map)"
  shows "(\<Sum>s\<leftarrow>matched. int (length (dict_get keywords_map s [])))
           = int (length (concat (map snd keywords_map)))"
proof -
  define fa where "fa = found_keywords L (str_lower L body) agrarian_keywords"
  define fs where "fs = found_keywords L (str_lower L body) social_keywords"
  define fc where "fc = found_keywords L (str_lower L body) corporate_keywords"
  from assms have m: "matched = map fst (filter (\<lambda>(s, lst). lst \<noteq> [])
        [(agrarian, fa), (social, fs), (corporate, fc)])"
    and k: "keywords_map = [(agrarian, remdups fa), (social, remdups fs), (corporate, remdups fc)]"
    by (simp_all add: analyze_text_for_sectors_unfold fa_def fs_def fc_def)
  show ?thesis
    unfolding m k
    by (cases "fa = []"; cases "fs = []"; cases "fc = []")
       (simp_all add: dict_get_def sector_ids_distinct)
qed

text \<open>
  C1, as amended. For every matched-sector list, keyword map and body text, the score is
  0, plus 2 for each entry of the matched list, plus 1 for each keyword that the map
  records for each entry of the matched list, plus 3 if the text contains one of the
  three penalty stems case-insensitively, capped at 10. When the list and the map are
  the classifier's output, that is the score as claimed: the keyword term is then the
  number of keywords across all sectors of the map.
\<close>

theorem compute_risk_score_formula:
  "compute_risk_score L matched keywords_map text =
     min 10 (0 + 2 * int (length matched)
               + (\<Sum>s\<leftarrow>matched. int (length (dict_get keywords_map s [])))
               + (if re_search_i L penalty_stems text then 3 else 0))
   \<and> (analyze_text_for_sectors L body = (matched, keywords_map) \<longrightarrow>
        compute_risk_score L matched keywords_map text
          = risk_score_as_claimed L matched keywords_map text)"
proof -
  have general: "compute_risk_score L matched keywords_map text =
     min 10 (0 + 2 * int (length matched)
               + (\<Sum>s\<leftarrow>matched. int (length (dict_get keywords_map s [])))
               + (if re_search_i L penalty_stems text then 3 else 0))"
    by (simp add: compute_risk_score_def add_keyword_counts_sum Let_def)
  show ?thesis
    using general keyword_count_of_analysis [of L body matched keywords_map]
    unfolding risk_score_as_claimed_def
    by presburger
qed

text \<open>
  The scenario's classification scores 4 on the scenario text (no penalty stem) and 7 on a
  text that holds the stem shtraf in capitals: the bonus adds 3 below the cap.
\<close>

theorem compute_risk_score_formula_witness:
  "compute_risk_score sample_lib [agrarian]
       [(agrarian, [kw_zeml, kw_subsyd]), (social, []), (corporate, [])] scenario_text = 4
   \<and> risk_score_as_claimed sample_lib [agrarian]
       [(agrarian, [kw_zeml, kw_subsyd]), (social, []), (corporate, [])] scenario_text = 4
   \<and> compute_risk_score sample_lib [agrarian]
       [(agrarian, [kw_zeml, kw_subsyd]), (social, []), (corporate, [])]
       [1064, 1058, 1056, 1040, 1060] = 7"
proof -
  let ?m = "[(agrarian, [kw_zeml, kw_subsyd]), (social, []), (corporate, [])]"
  have low: "str_lower sample_lib scenario_text = scenario_text_lower"
    by (simp add: sample_lib_def sample_lower_cp_def scenario_text_def scenario_text_lower_def)
  have kws: "list_all (\<lambda>kw. str_lower sample_lib kw = kw) (concat (map snd SECTOR_KEYWORDS))"
    by (simp add: sample_lib_def sample_lower_cp_def SECTOR_KEYWORDS_def agrarian_keywords_def
        social_keywords_def corporate_keywords_def)
  have no_bonus: "\<not> re_search_i sample_lib penalty_stems scenario_text"
    by (simp add: re_search_i_def penalty_stems_def sample_lib_def sample_lower_cp_def
        scenario_text_def)
  have bonus: "re_search_i sample_lib penalty_stems [1064, 1058, 1056, 1040, 1060]"
    by (simp add: re_search_i_def penalty_stems_def sample_lib_def sample_lower_cp_def)
  from compute_risk_score_formula [of sample_lib "[agrarian]" ?m scenario_text scenario_text]
    scenario_analysis [OF low kws] no_bonus
  have first: "compute_risk_score sample_lib [agrarian] ?m scenario_text = 4"
    and claimed: "risk_score_as_claimed sample_lib [agrarian] ?m scenario_text = 4"
    by (simp_all add: dict_get_def)
  from compute_risk_score_formula [of sample_lib "[agrarian]" ?m
      "[1064, 1058, 1056, 1040, 1060]" scenario_text] bonus
  have second: "compute_risk_score sample_lib [agrarian] ?m [1064, 1058, 1056, 1040, 1060] = 7"
    by (simp add: dict_get_def)
  from first claimed second show ?thesis by simp
qed

text \<open>
  C1, as claimed (one per keyword across all sectors of the map, for every list and
  map), fails on an empty matched list with a map that records two keywords: the code
  gives 0, the claimed formula 2.
\<close>

theorem compute_risk_score_claimed_counterexample:
  "compute_risk_score sample_lib ([] :: ustr list) [(agrarian, [kw_zeml, kw_subsyd])] [] = 0
   \<and> risk_score_as_claimed sample_lib ([] :: ustr list) [(agrarian, [kw_zeml, kw_subsyd])] [] = 2
   \<and> compute_risk_score sample_lib ([] :: ustr list) [(agrarian, [kw_zeml, kw_subsyd])] []
       \<noteq> risk_score_as_claimed sample_lib ([] :: ustr list) [(agrarian, [kw_zeml, kw_subsyd])] []"
proof -
  have no_bonus: "\<not> re_search_i sample_lib penalty_stems []"
    by (simp add: re_search_i_def penalty_stems_def)
  then show ?thesis
    by (simp add: compute_risk_score_def risk_score_as_claimed_def)
qed

text \<open>
  C2. For every matched-sector list, keyword map and body text, the score is an integer
  between 0 and 10.
\<close>

theorem compute_risk_score_range:
  "0 \<le> compute_risk_score L matched keywords_map text
   \<and> compute_risk_score L matched keywords_map text \<le> 10"
proof -
  have "0 \<le> (\<Sum>s\<leftarrow>matched. int (length (dict_get keywords_map s [])))"
    by (rule sum_list_nonneg) auto
  then show ?thesis
    by (simp add: compute_risk_score_def add_keyword_counts_sum Let_def)
qed

theorem compute_risk_score_range_witness:
  "0 \<le> compute_risk_score sample_lib ([] :: ustr list) ([] :: (ustr \<times> ustr list) list) []
   \<and> compute_risk_score sample_lib ([] :: ustr list) ([] :: (ustr \<times> ustr list) list) [] \<le> 10"
  using compute_risk_score_range [of sample_lib "[] :: ustr list" "[] :: (ustr \<times> ustr list) list" "[]"]
  by simp

end
